theory Spec2Isabelle
  imports Main
begin

section \<open>Python values and exceptions\<close>

text \<open>
  The program is \<^verbatim>\<open>threatscrape.py\<close>. A Python \<^verbatim>\<open>str\<close> is modelled as a
  \<^typ>\<open>string\<close>, one \<^typ>\<open>char\<close> per code point (code points below 256). The value
  returned by \<^verbatim>\<open>response.json()\<close> is a \<open>json\<close> value; a JSON object is the
  \<^verbatim>\<open>dict\<close> it was parsed into, written as the list of its entries in insertion order
  (each key once) and read by key with \<^const>\<open>map_of\<close>. Numbers are restricted to integers.
\<close>

datatype json =
    JNull
  | JBool bool
  | JNum int
  | JStr string
  | JArr "json list"
  | JObj "(string \<times> json) list"

text \<open>
  The exceptions that the code can raise. \<open>RequestException\<close> stands for
  \<^verbatim>\<open>requests.exceptions.RequestException\<close> and all of its subclasses (timeouts,
  connection errors, the \<^verbatim>\<open>HTTPError\<close> of \<^verbatim>\<open>raise_for_status\<close>); it is the only class
  the two \<^verbatim>\<open>except\<close> clauses of the program catch.
\<close>

datatype py_exc =
    RequestException
  | ValueError
  | IndexError
  | KeyError
  | TypeError
  | AttributeError

text \<open>
  The HTTP requests the program issues, in the trace that every operation returns: the
  POST to the generative endpoint (URL and prompt) and the GET to the search endpoint
  (the five query parameters \<^verbatim>\<open>key\<close>, \<^verbatim>\<open>cx\<close>, \<^verbatim>\<open>q\<close>, \<^verbatim>\<open>num\<close>, \<^verbatim>\<open>start\<close>).
\<close>

datatype request =
    GeminiPost string string
  | SearchGet string string string int int

text \<open>Sequencing of two steps, the first of which may raise.\<close>

definition bnd :: "py_exc + 'a \<Rightarrow> ('a \<Rightarrow> py_exc + 'b) \<Rightarrow> py_exc + 'b" where
  "bnd m f = (case m of Inl e \<Rightarrow> Inl e | Inr v \<Rightarrow> f v)"

subsection \<open>String operations\<close>

text \<open>
  \<^verbatim>\<open>str.isspace\<close> on one character, for the code points below 256: the ASCII controls
  TAB, LF, VT, FF, CR, the separators FS, GS, RS, US, the space, NEL and the no-break space.
\<close>

definition isspace :: "char \<Rightarrow> bool" where
  "isspace c =
     (let n = (of_char c :: nat)
      in (9 \<le> n \<and> n \<le> 13) \<or> (28 \<le> n \<and> n \<le> 32) \<or> n = 133 \<or> n = 160)"

text \<open>\<^verbatim>\<open>s.strip()\<close>: leading and trailing whitespace removed.\<close>

definition py_strip :: "string \<Rightarrow> string" where
  "py_strip s = rev (dropWhile isspace (rev (dropWhile isspace s)))"

text \<open>
  \<^verbatim>\<open>s.split(c)\<close> for a separator of one character: the fragments between the
  occurrences of \<open>c\<close>; there is always at least one fragment.
\<close>

fun py_split :: "char \<Rightarrow> string \<Rightarrow> string list" where
  "py_split c [] = [[]]"
| "py_split c (x # xs) =
     (if x = c then [] # py_split c xs
      else (case py_split c xs of
              [] \<Rightarrow> [[x]]
            | y # ys \<Rightarrow> (x # y) # ys))"

text \<open>\<^verbatim>\<open>sep.join(xs)\<close>.\<close>

fun py_join :: "string \<Rightarrow> string list \<Rightarrow> string" where
  "py_join sep [] = []"
| "py_join sep [x] = x"
| "py_join sep (x # y # ys) = x @ sep @ py_join sep (y # ys)"

text \<open>\<^verbatim>\<open>a in b\<close> for two strings: \<open>a\<close> occurs in \<open>b\<close> as a contiguous run.\<close>

fun str_contains :: "string \<Rightarrow> string \<Rightarrow> bool" where
  "str_contains a [] = (a = [])"
| "str_contains a (y # ys) = (take (length a) (y # ys) = a \<or> str_contains a ys)"

text \<open>\<^verbatim>\<open>s.replace(a, b)\<close> for single characters \<open>a\<close> and \<open>b\<close>.\<close>

definition py_replace :: "char \<Rightarrow> char \<Rightarrow> string \<Rightarrow> string" where
  "py_replace a b s = map (\<lambda>c. if c = a then b else c) s"

subsection \<open>Operations on parsed JSON\<close>

text \<open>\<^verbatim>\<open>k in data\<close> for a string \<open>k\<close>: key of a dict, element of a list, substring of a
  string; \<^verbatim>\<open>TypeError\<close> on \<^verbatim>\<open>None\<close>, booleans and numbers.\<close>

fun py_in :: "string \<Rightarrow> json \<Rightarrow> py_exc + bool" where
  "py_in k (JObj kvs) = Inr (k \<in> set (map fst kvs))"
| "py_in k (JArr xs) = Inr (JStr k \<in> set xs)"
| "py_in k (JStr s) = Inr (str_contains k s)"
| "py_in k JNull = Inl TypeError"
| "py_in k (JBool b) = Inl TypeError"
| "py_in k (JNum n) = Inl TypeError"

text \<open>\<^verbatim>\<open>data[k]\<close> for a string \<open>k\<close>: \<^verbatim>\<open>KeyError\<close> on a dict without the key,
  \<^verbatim>\<open>TypeError\<close> on every other value.\<close>

fun py_getitem :: "json \<Rightarrow> string \<Rightarrow> py_exc + json" where
  "py_getitem (JObj kvs) k = (case map_of kvs k of None \<Rightarrow> Inl KeyError | Some v \<Rightarrow> Inr v)"
| "py_getitem (JArr xs) k = Inl TypeError"
| "py_getitem (JStr s) k = Inl TypeError"
| "py_getitem JNull k = Inl TypeError"
| "py_getitem (JBool b) k = Inl TypeError"
| "py_getitem (JNum n) k = Inl TypeError"

text \<open>\<^verbatim>\<open>data[0]\<close>: the first element of a list or the first character of a string
  (\<^verbatim>\<open>IndexError\<close> when empty); a parsed JSON dict has only string keys, so \<^verbatim>\<open>KeyError\<close>.\<close>

fun py_first :: "json \<Rightarrow> py_exc + json" where
  "py_first (JArr []) = Inl IndexError"
| "py_first (JArr (x # xs)) = Inr x"
| "py_first (JStr []) = Inl IndexError"
| "py_first (JStr (c # cs)) = Inr (JStr [c])"
| "py_first (JObj kvs) = Inl KeyError"
| "py_first JNull = Inl TypeError"
| "py_first (JBool b) = Inl TypeError"
| "py_first (JNum n) = Inl TypeError"

text \<open>\<^verbatim>\<open>text.split(",")\<close> on a parsed value: only a string has the method.\<close>

fun py_split_json :: "json \<Rightarrow> py_exc + string list" where
  "py_split_json (JStr s) = Inr (py_split (CHR '','') s)"
| "py_split_json v = Inl AttributeError"

text \<open>Iterating over a parsed value, as \<^verbatim>\<open>list.extend\<close> does: the elements of a list,
  the keys of a dict, the characters of a string.\<close>

fun py_iter :: "json \<Rightarrow> py_exc + json list" where
  "py_iter (JArr xs) = Inr xs"
| "py_iter (JObj kvs) = Inr (map JStr (map fst kvs))"
| "py_iter (JStr s) = Inr (map (\<lambda>c. JStr [c]) s)"
| "py_iter JNull = Inl TypeError"
| "py_iter (JBool b) = Inl TypeError"
| "py_iter (JNum n) = Inl TypeError"

text \<open>\<^verbatim>\<open>item.get(k, default)\<close>: only a dict has the method.\<close>

fun py_get :: "json \<Rightarrow> string \<Rightarrow> json \<Rightarrow> py_exc + json" where
  "py_get (JObj kvs) k d = Inr (case map_of kvs k of None \<Rightarrow> d | Some v \<Rightarrow> v)"
| "py_get v k d = Inl AttributeError"

section \<open>Configuration\<close>

text \<open>
  The configuration is the dict read from the JSON file; each field is \<open>None\<close> when
  the key is not in the file. Credentials are strings, the two lists are lists of strings
  and the cap is an integer.
\<close>

record config =
  GEMINI_API_KEY :: "string option"
  GOOGLE_API_KEY :: "string option"
  CX :: "string option"
  EXCLUDED_SITES :: "string list option"
  INTEXT_KEYWORDS :: "string list option"
  TOTAL_RESULTS :: "int option"

text \<open>\<^verbatim>\<open>not key\<close> for a credential: the key is missing or the empty string.\<close>

definition py_not :: "string option \<Rightarrow> bool" where
  "py_not k = (case k of None \<Rightarrow> True | Some s \<Rightarrow> s = [])"

text \<open>\<^verbatim>\<open>config.get(k, default)\<close>.\<close>

definition get_default :: "'a option \<Rightarrow> 'a \<Rightarrow> 'a" where
  "get_default v d = (case v of None \<Rightarrow> d | Some x \<Rightarrow> x)"

section \<open>\<^verbatim>\<open>get_related_keywords\<close>\<close>

text \<open>
  The try block of \<^verbatim>\<open>get_related_keywords\<close> after \<^verbatim>\<open>response.json()\<close> has returned
  \<open>data\<close>: \<open>Inr (Some kws)\<close> is the \<^verbatim>\<open>return related_keywords\<close> inside the \<^verbatim>\<open>if\<close>,
  \<open>Inr None\<close> is falling out of the \<^verbatim>\<open>if\<close>, \<open>Inl e\<close> is an exception raised on the way.
  The comprehension filters on the fragment as split (\<^verbatim>\<open>if term\<close>) and strips afterwards.
\<close>

definition parse_related :: "json \<Rightarrow> py_exc + string list option" where
  "parse_related data =
     bnd (py_in ''candidates'' data) (\<lambda>has_candidates.
       if \<not> has_candidates then Inr None
       else
         bnd (py_getitem data ''candidates'') (\<lambda>cands.
         bnd (py_first cands) (\<lambda>cand.
         bnd (py_getitem cand ''content'') (\<lambda>content.
         bnd (py_in ''parts'' content) (\<lambda>has_parts.
           if \<not> has_parts then Inr None
           else
             bnd (py_getitem data ''candidates'') (\<lambda>cands'.
             bnd (py_first cands') (\<lambda>cand'.
             bnd (py_getitem cand' ''content'') (\<lambda>content'.
             bnd (py_getitem content' ''parts'') (\<lambda>parts.
             bnd (py_first parts) (\<lambda>part.
             bnd (py_getitem part ''text'') (\<lambda>related_text.
             bnd (py_split_json related_text) (\<lambda>frags.
               Inr (Some (map py_strip (filter (\<lambda>term. term \<noteq> []) frags)))))))))))))))"

text \<open>
  \<^verbatim>\<open>get_related_keywords(search_term, gemini_api_key)\<close>. The third argument is the
  network: what a request does when it is issued, \<open>Inl e\<close> when \<^verbatim>\<open>requests.post\<close>,
  \<^verbatim>\<open>raise_for_status\<close> or \<^verbatim>\<open>response.json()\<close> raises \<open>e\<close>, \<open>Inr data\<close> when the parsed body
  is \<open>data\<close>. The result pairs the requests issued with the returned list or the escaping
  exception.
\<close>

definition gemini_url :: "string \<Rightarrow> string" where
  "gemini_url key =
     ''https://generativelanguage.googleapis.com/v1beta/models/gemini-1.5-flash:generateContent?key=''
       @ key"

definition prompt :: "string \<Rightarrow> string" where
  "prompt search_term =
     ''Provide related APT or threat actor names for: '' @ search_term
       @ ''. Include alternative names and aliases, separated by commas.''"

type_synonym network = "request \<Rightarrow> py_exc + json"

definition get_related_keywords ::
  "string \<Rightarrow> string option \<Rightarrow> network \<Rightarrow> request list \<times> (py_exc + string list)" where
  "get_related_keywords search_term gemini_api_key http =
     (if py_not gemini_api_key then ([], Inr [search_term])
      else
        (let req = GeminiPost (gemini_url (get_default gemini_api_key [])) (prompt search_term)
         in
        ([req],
         case http req of
              Inl e \<Rightarrow> if e = RequestException then Inr [search_term] else Inl e
            | Inr data \<Rightarrow>
                (case parse_related data of
                   Inl e \<Rightarrow> Inl e
                 | Inr (Some related_keywords) \<Rightarrow> Inr related_keywords
                 | Inr None \<Rightarrow> Inr [search_term]))))"

text \<open>A response body of the expected shape, carrying the text \<open>t\<close>.\<close>

definition gemini_body :: "string \<Rightarrow> json" where
  "gemini_body t =
     JObj [(''candidates'',
            JArr [JObj [(''content'', JObj [(''parts'', JArr [JObj [(''text'', JStr t)]])])]])]"

section \<open>\<^verbatim>\<open>build_google_dorking_query\<close>\<close>

text \<open>Lines 51 to 59: the three groups and the f-string that puts them together.\<close>

definition query_terms :: "string list \<Rightarrow> string" where
  "query_terms related_keywords =
     py_join '' OR '' (map (\<lambda>kw. [CHR 0x22] @ kw @ [CHR 0x22]) related_keywords)"

definition exclusion_query :: "string list \<Rightarrow> string" where
  "exclusion_query excluded_sites = py_join '' '' (map (\<lambda>site. ''-site:'' @ site) excluded_sites)"

definition intext_query :: "string list \<Rightarrow> string" where
  "intext_query intext_keywords = py_join '' '' (map (\<lambda>kw. ''intext:'' @ kw) intext_keywords)"

definition full_query :: "string list \<Rightarrow> string list \<Rightarrow> string list \<Rightarrow> string" where
  "full_query related_keywords excluded_sites intext_keywords =
     ''('' @ query_terms related_keywords @ '') '' @ exclusion_query excluded_sites
       @ '' '' @ intext_query intext_keywords"

definition build_google_dorking_query ::
  "string \<Rightarrow> config \<Rightarrow> network \<Rightarrow> request list \<times> (py_exc + string)" where
  "build_google_dorking_query base_keyword cfg http =
     (case get_related_keywords base_keyword (GEMINI_API_KEY cfg) http of
        (reqs, Inl e) \<Rightarrow> (reqs, Inl e)
      | (reqs, Inr related_keywords) \<Rightarrow>
          (reqs, Inr (full_query related_keywords
                     (get_default (EXCLUDED_SITES cfg) [])
                     (get_default (INTEXT_KEYWORDS cfg) []))))"

section \<open>\<^verbatim>\<open>google_search\<close>\<close>

text \<open>
  \<^verbatim>\<open>range(start, stop, step)\<close>: \<^verbatim>\<open>ValueError\<close> for a zero step, the values
  \<open>start, start + step, \<dots>\<close> below \<open>stop\<close> for a positive step and above \<open>stop\<close> for a
  negative one.
\<close>

function range_up :: "int \<Rightarrow> int \<Rightarrow> int \<Rightarrow> int list" where
  "range_up i stop step =
     (if 0 < step \<and> i < stop then i # range_up (i + step) stop step else [])"
  by pat_completeness auto
termination
  by (relation "measure (\<lambda>(i, stop, step). nat (stop - i))") auto

function range_down :: "int \<Rightarrow> int \<Rightarrow> int \<Rightarrow> int list" where
  "range_down i stop step =
     (if step < 0 \<and> stop < i then i # range_down (i + step) stop step else [])"
  by pat_completeness auto
termination
  by (relation "measure (\<lambda>(i, stop, step). nat (i - stop))") auto

declare range_up.simps [simp del]
declare range_down.simps [simp del]

definition py_range :: "int \<Rightarrow> int \<Rightarrow> int \<Rightarrow> py_exc + int list" where
  "py_range start stop step =
     (if step = 0 then Inl ValueError
      else if 0 < step then Inr (range_up start stop step)
      else Inr (range_down start stop step))"

text \<open>
  Lines 93 to 96, on the parsed body \<open>data\<close> of one page: the items that
  \<^verbatim>\<open>results.extend(data["items"])\<close> appends, none when the body has no \<^verbatim>\<open>items\<close>.
\<close>

definition page_items :: "json \<Rightarrow> py_exc + json list" where
  "page_items data =
     bnd (py_in ''items'' data) (\<lambda>has_items.
       if has_items then bnd (py_getitem data ''items'') py_iter else Inr [])"

text \<open>
  The \<^verbatim>\<open>for\<close> loop of \<^verbatim>\<open>google_search\<close> over the remaining start offsets, with the
  requests issued so far and the accumulator \<^verbatim>\<open>results\<close>. A \<open>RequestException\<close> is
  caught and breaks the loop; any other exception escapes. (The log lines and the
  one-second sleep after a page are not part of the model.)
\<close>

fun search_loop ::
  "network \<Rightarrow> (int \<Rightarrow> request) \<Rightarrow> int list \<Rightarrow> request list \<Rightarrow> json list
     \<Rightarrow> request list \<times> (py_exc + json list)" where
  "search_loop http params [] issued results = (issued, Inr results)"
| "search_loop http params (start # starts) issued results =
     (case http (params start) of
        Inl e \<Rightarrow>
          if e = RequestException then (issued @ [params start], Inr results)
          else (issued @ [params start], Inl e)
      | Inr data \<Rightarrow>
          (case page_items data of
             Inl e \<Rightarrow> (issued @ [params start], Inl e)
           | Inr items \<Rightarrow>
               search_loop http params starts (issued @ [params start]) (results @ items)))"

definition google_search ::
  "string \<Rightarrow> config \<Rightarrow> int \<Rightarrow> network \<Rightarrow> request list \<times> (py_exc + json list)" where
  "google_search query cfg results_per_page http =
     (let google_api_key = GOOGLE_API_KEY cfg;
          cx = CX cfg;
          total_results = get_default (TOTAL_RESULTS cfg) 50
      in
        if py_not google_api_key \<or> py_not cx then ([], Inr [])
        else
          (case py_range 1 (total_results + 1) results_per_page of
             Inl e \<Rightarrow> ([], Inl e)
           | Inr starts \<Rightarrow>
               search_loop http
                 (\<lambda>start. SearchGet (get_default google_api_key []) (get_default cx [])
                            query results_per_page start)
                 starts [] []))"

section \<open>Writing the results\<close>

text \<open>
  \<^verbatim>\<open>save_results_to_csv\<close>: the rows handed to \<^verbatim>\<open>csv_writer.writerow\<close>, in order, each a
  list of cells, and the exception that ends the writing, if any (\<^verbatim>\<open>item.get\<close> on an item
  that is not a dict). How the \<^verbatim>\<open>csv\<close> module renders a row as text is not modelled.
\<close>

fun csv_rows :: "json list \<Rightarrow> json list list \<times> py_exc option" where
  "csv_rows [] = ([], None)"
| "csv_rows (item # items) =
     (case py_get item ''title'' (JStr ''N/A'') of
        Inl e \<Rightarrow> ([], Some e)
      | Inr title \<Rightarrow>
          (case py_get item ''link'' (JStr ''N/A'') of
             Inl e \<Rightarrow> ([], Some e)
           | Inr link \<Rightarrow>
               (case csv_rows items of (rows, r) \<Rightarrow> ([title, link] # rows, r))))"

definition save_results_to_csv :: "json list \<Rightarrow> json list list \<times> py_exc option" where
  "save_results_to_csv results =
     (case csv_rows results of (rows, r) \<Rightarrow> ([JStr ''Title'', JStr ''Link''] # rows, r))"

section \<open>\<^verbatim>\<open>main\<close>\<close>

text \<open>
  What a run does, in order: reading the configuration file, HTTP requests, writing
  the two files, printing one result. \<^verbatim>\<open>load_config\<close> is the file system seen through
  \<open>config_file\<close>: \<open>None\<close> for a missing or malformed file, which exits with status 1.
\<close>

datatype event =
    LoadConfig string
  | Http request
  | WriteJson string "json list"
  | WriteCsv string "json list list"
  | Print nat json json

datatype outcome = Exit nat | Uncaught py_exc

record world =
  config_file :: "string \<Rightarrow> config option"
  net :: network

text \<open>The \<^verbatim>\<open>print\<close> loop at the end of \<^verbatim>\<open>main\<close>, from index \<open>i\<close>.\<close>

fun print_results :: "nat \<Rightarrow> json list \<Rightarrow> event list \<times> py_exc option" where
  "print_results i [] = ([], None)"
| "print_results i (item # items) =
     (case py_get item ''title'' JNull of
        Inl e \<Rightarrow> ([], Some e)
      | Inr title \<Rightarrow>
          (case py_get item ''link'' JNull of
             Inl e \<Rightarrow> ([], Some e)
           | Inr link \<Rightarrow>
               (case print_results (Suc i) items of
                  (evs, r) \<Rightarrow> (Print i title link # evs, r))))"

definition main :: "string \<Rightarrow> string \<Rightarrow> world \<Rightarrow> event list \<times> outcome" where
  "main search_keyword_arg config_arg w =
     (let search_keyword = py_strip search_keyword_arg;
          config_path = py_strip config_arg
      in
        if search_keyword = [] then ([], Exit 1)
        else
          (case config_file w config_path of
             None \<Rightarrow> ([LoadConfig config_path], Exit 1)
           | Some cfg \<Rightarrow>
               (case build_google_dorking_query search_keyword cfg (net w) of
                  (r1, Inl e) \<Rightarrow> (LoadConfig config_path # map Http r1, Uncaught e)
                | (r1, Inr refined_query) \<Rightarrow>
                    (case google_search refined_query cfg 10 (net w) of
                       (r2, Inl e) \<Rightarrow>
                         (LoadConfig config_path # map Http (r1 @ r2), Uncaught e)
                     | (r2, Inr search_results) \<Rightarrow>
                         (let before = LoadConfig config_path # map Http (r1 @ r2);
                              base = py_replace (CHR '' '') (CHR ''_'') search_keyword;
                              json_filename = base @ ''_search_results.json'';
                              csv_filename = base @ ''_search_results.csv''
                          in
                            if search_results = [] then (before, Exit 0)
                            else
                              (case save_results_to_csv search_results of
                                 (rows, Some e) \<Rightarrow>
                                   (before @ [WriteJson json_filename search_results,
                                              WriteCsv csv_filename rows],
                                    Uncaught e)
                               | (rows, None) \<Rightarrow>
                                   (case print_results 1 search_results of
                                      (evs, Some e) \<Rightarrow>
                                        (before @ [WriteJson json_filename search_results,
                                                   WriteCsv csv_filename rows] @ evs,
                                         Uncaught e)
                                    | (evs, None) \<Rightarrow>
                                        (before @ [WriteJson json_filename search_results,
                                                   WriteCsv csv_filename rows] @ evs,
                                         Exit 0))))))))"

section \<open>Definitions that follow the specification\<close>

text \<open>
  The query as the specification words it: every group is its parts with the separator
  between each two of them, and the three groups are joined by single spaces.
\<close>

definition spec_join :: "string \<Rightarrow> string list \<Rightarrow> string" where
  "spec_join sep xs = drop (length sep) (concat (map (\<lambda>x. sep @ x) xs))"

definition spec_quoted :: "string \<Rightarrow> string" where
  "spec_quoted t = CHR 0x22 # t @ [CHR 0x22]"

definition spec_query :: "string list \<Rightarrow> string list \<Rightarrow> string list \<Rightarrow> string" where
  "spec_query expansion sites required =
     spec_join '' ''
       [''('' @ spec_join '' OR '' (map spec_quoted expansion) @ '')'',
        spec_join '' '' (map (\<lambda>site. ''-site:'' @ site) sites),
        spec_join '' '' (map (\<lambda>t. ''intext:'' @ t) required)]"

text \<open>
  A cell of the table as the specification words it: the field of the item, the literal
  \<^verbatim>\<open>N/A\<close> when the item has no such field.
\<close>

definition spec_cell :: "(string \<times> json) list \<Rightarrow> string \<Rightarrow> json" where
  "spec_cell kvs k = (if k \<in> set (map fst kvs) then the (map_of kvs k) else JStr ''N/A'')"

text \<open>
  A page request succeeds when the request returns a body and reading its items raises
  nothing; \<open>items_of\<close> is what that page adds to the accumulator.
\<close>

definition page_ok :: "network \<Rightarrow> request \<Rightarrow> bool" where
  "page_ok http r =
     (case http r of
        Inl e \<Rightarrow> False
      | Inr data \<Rightarrow> (case page_items data of Inl e \<Rightarrow> False | Inr items \<Rightarrow> True))"

definition items_of :: "network \<Rightarrow> request \<Rightarrow> json list" where
  "items_of http r =
     (case http r of
        Inl e \<Rightarrow> []
      | Inr data \<Rightarrow> (case page_items data of Inl e \<Rightarrow> [] | Inr items \<Rightarrow> items))"

section \<open>The query builder\<close>

lemma py_join_spec_join: "py_join sep xs = spec_join sep xs"
  by (induction sep xs rule: py_join.induct) (simp_all add: spec_join_def)

lemma full_query_spec_query: "full_query exps sites reqs = spec_query exps sites reqs"
  by (simp add: full_query_def spec_query_def query_terms_def exclusion_query_def
      intext_query_def py_join_spec_join)
    (simp add: spec_join_def spec_quoted_def o_def)

lemma build_google_dorking_query_snd:
  "snd (build_google_dorking_query base cfg http) =
     map_sum id
       (\<lambda>kws. full_query kws (get_default (EXCLUDED_SITES cfg) [])
                (get_default (INTEXT_KEYWORDS cfg) []))
       (snd (get_related_keywords base (GEMINI_API_KEY cfg) http))"
  by (simp add: build_google_dorking_query_def split: prod.splits sum.splits)

text \<open>
  Claim C7. The query that \<^verbatim>\<open>build_google_dorking_query\<close> returns is, for whatever
  expansion list the keyword expander produced, the parenthesised expansion terms, each in
  double quotes and joined by \<^verbatim>\<open> OR \<close>, then the exclusion sites each prefixed
  \<^verbatim>\<open>-site:\<close>, then the required terms each prefixed \<^verbatim>\<open>intext:\<close>, with one space between
  the three groups. For the expansion X, Y, the exclusion a.com and the required term
  malware it is the string of the specification's example, and with both lists empty the
  query ends in two consecutive spaces.
\<close>

theorem query_builder_format:
  \<open>snd (build_google_dorking_query base cfg http) =
     map_sum id
       (\<lambda>expansion. spec_query expansion (get_default (EXCLUDED_SITES cfg) [])
                      (get_default (INTEXT_KEYWORDS cfg) []))
       (snd (get_related_keywords base (GEMINI_API_KEY cfg) http))
   \<and> full_query [''X'', ''Y''] [''a.com''] [''malware'']
       = ''("X" OR "Y") -site:a.com intext:malware''
   \<and> full_query expansion [] [] = ''('' @ spec_join '' OR '' (map spec_quoted expansion) @ '')  ''\<close>
proof (intro conjI)
  show "snd (build_google_dorking_query base cfg http) =
     map_sum id
       (\<lambda>expansion. spec_query expansion (get_default (EXCLUDED_SITES cfg) [])
                      (get_default (INTEXT_KEYWORDS cfg) []))
       (snd (get_related_keywords base (GEMINI_API_KEY cfg) http))"
    by (simp add: build_google_dorking_query_snd full_query_spec_query)
  show \<open>full_query [''X'', ''Y''] [''a.com''] [''malware'']
       = ''("X" OR "Y") -site:a.com intext:malware''\<close>
    by (simp add: full_query_def query_terms_def exclusion_query_def intext_query_def)
  show "full_query expansion [] [] = ''('' @ spec_join '' OR '' (map spec_quoted expansion) @ '')  ''"
    by (simp add: full_query_spec_query spec_query_def) (simp add: spec_join_def)
qed

section \<open>The keyword expander\<close>

lemma split_commas: "py_split (CHR '','') (replicate n (CHR '','')) = replicate (Suc n) []"
  by (induction n) simp_all

lemma parse_related_gemini_body:
  "parse_related (gemini_body t) =
     Inr (Some (map py_strip (filter (\<lambda>term. term \<noteq> []) (py_split (CHR '','') t))))"
  by (simp add: parse_related_def gemini_body_def bnd_def)

lemma get_related_keywords_gemini_body:
  "\<not> py_not key \<Longrightarrow>
   snd (get_related_keywords term key (\<lambda>r. Inr (gemini_body t))) =
     Inr (map py_strip (filter (\<lambda>term. term \<noteq> []) (py_split (CHR '','') t)))"
  by (simp add: get_related_keywords_def parse_related_gemini_body Let_def)

lemma get_related_keywords_no_key:
  "key = None \<or> key = Some [] \<Longrightarrow> get_related_keywords term key http = ([], Inr [term])"
  by (auto simp: get_related_keywords_def py_not_def)

lemma get_related_keywords_request_failed:
  "http (GeminiPost (gemini_url (get_default key [])) (prompt term)) = Inl RequestException \<Longrightarrow>
   snd (get_related_keywords term key http) = Inr [term]"
  by (simp add: get_related_keywords_def Let_def)

lemma get_related_keywords_no_candidates:
  "http (GeminiPost (gemini_url (get_default key [])) (prompt term)) = Inr (JObj kvs) \<Longrightarrow>
   ''candidates'' \<notin> set (map fst kvs) \<Longrightarrow>
   snd (get_related_keywords term key http) = Inr [term]"
  by (simp add: get_related_keywords_def Let_def parse_related_def bnd_def)

text \<open>
  Claim C3. On the response text \<^verbatim>\<open>A, B ,C\<close> the expander returns A, B, C. The
  comprehension drops a fragment only when it is empty before stripping, so on the text
  \<^verbatim>\<open>A, B, \<close> (a trailing comma and space) the last fragment is a single space, it is kept and
  stripped, and the returned list contains the empty string.
\<close>

theorem keyword_expander_blank_fragment:
  "snd (get_related_keywords ''APT28'' (Some ''k'') (\<lambda>r. Inr (gemini_body ''A, B ,C'')))
     = Inr [''A'', ''B'', ''C'']
   \<and> snd (get_related_keywords ''APT28'' (Some ''k'') (\<lambda>r. Inr (gemini_body ''A, B, '')))
     = Inr [''A'', ''B'', '''']"
  by (simp add: get_related_keywords_gemini_body py_not_def py_strip_def isspace_def)

text \<open>
  Claim C2. A response whose first candidate has no \<^verbatim>\<open>content\<close> (a blocked candidate
  carries only a finish reason) makes the shape test itself raise \<^verbatim>\<open>KeyError\<close>, and an
  empty candidate list makes it raise \<^verbatim>\<open>IndexError\<close>; neither is a
  \<open>RequestException\<close>, so the exception escapes instead of the fallback list being
  returned.
\<close>

theorem keyword_expander_shape_escapes:
  "snd (get_related_keywords ''APT28'' (Some ''k'')
          (\<lambda>r. Inr (JObj [(''candidates'', JArr [JObj [(''finishReason'', JStr ''SAFETY'')]])])))
     = Inl KeyError
   \<and> snd (get_related_keywords ''APT28'' (Some ''k'')
          (\<lambda>r. Inr (JObj [(''candidates'', JArr [])])))
     = Inl IndexError"
  by (simp add: get_related_keywords_def py_not_def parse_related_def bnd_def)

text \<open>
  Claim C10. With a generative-API key present, a successful response whose text
  consists of commas only (any number of them) makes the expander return the empty list,
  not the original term, and the query built from it starts with an empty group
  \<^verbatim>\<open>()\<close>.
\<close>

theorem empty_expansion_query:
  assumes "\<not> py_not (GEMINI_API_KEY cfg)"
  shows "snd (get_related_keywords base (GEMINI_API_KEY cfg)
                (\<lambda>r. Inr (gemini_body (replicate n (CHR '','')))))
           = Inr []
         \<and> snd (build_google_dorking_query base cfg
                  (\<lambda>r. Inr (gemini_body (replicate n (CHR '','')))))
           = Inr (''() '' @ exclusion_query (get_default (EXCLUDED_SITES cfg) [])
                   @ '' '' @ intext_query (get_default (INTEXT_KEYWORDS cfg) []))"
proof -
  have kws: "snd (get_related_keywords base (GEMINI_API_KEY cfg)
                (\<lambda>r. Inr (gemini_body (replicate n (CHR '','')))))
           = Inr []"
    using assms by (simp add: get_related_keywords_gemini_body split_commas)
  then show ?thesis
    by (simp add: build_google_dorking_query_snd full_query_def query_terms_def)
qed

theorem empty_expansion_query_witness:
  "\<not> py_not (GEMINI_API_KEY \<lparr>GEMINI_API_KEY = Some ''g'', GOOGLE_API_KEY = None, CX = None,
        EXCLUDED_SITES = Some [''a.com''], INTEXT_KEYWORDS = None, TOTAL_RESULTS = None\<rparr>)
   \<and> snd (build_google_dorking_query ''APT28''
        \<lparr>GEMINI_API_KEY = Some ''g'', GOOGLE_API_KEY = None, CX = None,
         EXCLUDED_SITES = Some [''a.com''], INTEXT_KEYWORDS = None, TOTAL_RESULTS = None\<rparr>
        (\<lambda>r. Inr (gemini_body '',,''))) = Inr ''() -site:a.com ''"
proof -
  let ?cfg = "\<lparr>GEMINI_API_KEY = Some ''g'', GOOGLE_API_KEY = None, CX = None,
        EXCLUDED_SITES = Some [''a.com''], INTEXT_KEYWORDS = None, TOTAL_RESULTS = None\<rparr>"
  have h: "\<not> py_not (GEMINI_API_KEY ?cfg)" by (simp add: py_not_def)
  have r: "replicate 2 (CHR '','') = '',,''" by (simp add: numeral_2_eq_2)
  from empty_expansion_query [OF h, of "''APT28''" 2]
  have "snd (build_google_dorking_query ''APT28'' ?cfg (\<lambda>r. Inr (gemini_body '',,'')))
     = Inr (''() '' @ exclusion_query (get_default (EXCLUDED_SITES ?cfg) [])
                   @ '' '' @ intext_query (get_default (INTEXT_KEYWORDS ?cfg) []))"
    unfolding r by (rule conjunct2)
  then show ?thesis using h
    by (simp add: exclusion_query_def intext_query_def get_default_def)
qed

section \<open>The search paginator\<close>

text \<open>
  Claim C6. When the search-API key or the engine identifier is missing from the
  configuration or is the empty string, \<^verbatim>\<open>google_search\<close> returns the empty list and
  issues no request.
\<close>

theorem google_search_missing_credentials:
  assumes "GOOGLE_API_KEY cfg = None \<or> GOOGLE_API_KEY cfg = Some []
           \<or> CX cfg = None \<or> CX cfg = Some []"
  shows "google_search query cfg results_per_page http = ([], Inr [])"
  using assms by (auto simp: google_search_def py_not_def)

theorem google_search_missing_credentials_witness:
  "(GOOGLE_API_KEY \<lparr>GEMINI_API_KEY = Some ''g'', GOOGLE_API_KEY = Some ''k'', CX = Some [],
        EXCLUDED_SITES = None, INTEXT_KEYWORDS = None, TOTAL_RESULTS = Some 25\<rparr> = None
    \<or> GOOGLE_API_KEY \<lparr>GEMINI_API_KEY = Some ''g'', GOOGLE_API_KEY = Some ''k'', CX = Some [],
        EXCLUDED_SITES = None, INTEXT_KEYWORDS = None, TOTAL_RESULTS = Some 25\<rparr> = Some []
    \<or> CX \<lparr>GEMINI_API_KEY = Some ''g'', GOOGLE_API_KEY = Some ''k'', CX = Some [],
        EXCLUDED_SITES = None, INTEXT_KEYWORDS = None, TOTAL_RESULTS = Some 25\<rparr> = None
    \<or> CX \<lparr>GEMINI_API_KEY = Some ''g'', GOOGLE_API_KEY = Some ''k'', CX = Some [],
        EXCLUDED_SITES = None, INTEXT_KEYWORDS = None, TOTAL_RESULTS = Some 25\<rparr> = Some [])
   \<and> google_search ''q''
        \<lparr>GEMINI_API_KEY = Some ''g'', GOOGLE_API_KEY = Some ''k'', CX = Some [],
         EXCLUDED_SITES = None, INTEXT_KEYWORDS = None, TOTAL_RESULTS = Some 25\<rparr>
        10 (\<lambda>r. Inr (JObj [(''items'', JArr [JObj []])])) = ([], Inr [])"
proof -
  let ?cfg = "\<lparr>GEMINI_API_KEY = Some ''g'', GOOGLE_API_KEY = Some ''k'', CX = Some [],
        EXCLUDED_SITES = None, INTEXT_KEYWORDS = None, TOTAL_RESULTS = Some 25\<rparr>"
  have h: "GOOGLE_API_KEY ?cfg = None \<or> GOOGLE_API_KEY ?cfg = Some []
           \<or> CX ?cfg = None \<or> CX ?cfg = Some []"
    by simp
  show ?thesis
    by (rule conjI, rule h, rule google_search_missing_credentials, rule h)
qed

lemma range_up_offsets:
  "0 < step \<Longrightarrow>
   \<exists>n. range_up i stop step = map (\<lambda>k. i + int k * step) [0..<n]
       \<and> (\<forall>k. (i + int k * step < stop) = (k < n))"
proof (induction i stop step rule: range_up.induct)
  case (1 i stop step)
  show ?case
  proof (cases "i < stop")
    case False
    have "\<not> i + int k * step < stop" for k
    proof -
      have "0 \<le> int k * step" using "1.prems" by simp
      with False show ?thesis by linarith
    qed
    with False "1.prems" show ?thesis
      by (intro exI [of _ 0]) (simp add: range_up.simps)
  next
    case True
    with "1.IH" "1.prems" obtain n where
      r: "range_up (i + step) stop step = map (\<lambda>k. i + step + int k * step) [0..<n]"
      and b: "\<And>k. (i + step + int k * step < stop) = (k < n)"
      by blast
    have u: "[0..<Suc n] = 0 # map Suc [0..<n]"
      by (simp add: upt_conv_Cons map_Suc_upt del: upt_Suc)
    have "range_up i stop step = map (\<lambda>k. i + int k * step) [0..<Suc n]"
      unfolding u using True "1.prems" r
      by (simp add: range_up.simps [of i] o_def algebra_simps)
    moreover have "(i + int k * step < stop) = (k < Suc n)" for k
    proof (cases k)
      case 0
      with True show ?thesis by simp
    next
      case (Suc j)
      with b [of j] show ?thesis by (simp add: algebra_simps)
    qed
    ultimately show ?thesis by blast
  qed
qed

lemma search_loop_all_ok:
  "\<forall>s\<in>set starts. page_ok http (params s) \<Longrightarrow>
   search_loop http params starts issued results =
     (issued @ map params starts,
      Inr (results @ concat (map (\<lambda>s. items_of http (params s)) starts)))"
proof (induction starts arbitrary: issued results)
  case Nil
  show ?case by simp
next
  case (Cons s starts)
  from Cons.prems obtain data items where
    d: "http (params s) = Inr data" and p: "page_items data = Inr items"
    by (auto simp: page_ok_def split: sum.splits)
  from Cons.prems have "\<forall>s\<in>set starts. page_ok http (params s)" by simp
  from Cons.IH [OF this] d p show ?case by (simp add: items_of_def)
qed

lemma search_loop_failure:
  "j < length starts \<Longrightarrow>
   \<forall>i<j. page_ok http (params (starts ! i)) \<Longrightarrow>
   http (params (starts ! j)) = Inl RequestException \<Longrightarrow>
   search_loop http params starts issued results =
     (issued @ map params (take (Suc j) starts),
      Inr (results @ concat (map (\<lambda>s. items_of http (params s)) (take j starts))))"
proof (induction starts arbitrary: j issued results)
  case Nil
  then show ?case by simp
next
  case (Cons s starts)
  show ?case
  proof (cases j)
    case 0
    with Cons.prems show ?thesis by simp
  next
    case (Suc j')
    with Cons.prems have ok: "page_ok http (params s)" by auto
    then obtain data items where
      d: "http (params s) = Inr data" and p: "page_items data = Inr items"
      by (auto simp: page_ok_def split: sum.splits)
    from Suc Cons.prems have a: "j' < length starts"
      and b: "\<forall>i<j'. page_ok http (params (starts ! i))"
      and c: "http (params (starts ! j')) = Inl RequestException"
      by auto
    from Cons.IH [OF a b c] d p Suc show ?thesis by (simp add: items_of_def)
  qed
qed

lemma search_loop_length:
  assumes "\<And>r. length (items_of http r) \<le> m"
  shows "search_loop http params starts issued results = (tr, Inr rs) \<Longrightarrow>
         length rs \<le> length results + m * length starts"
proof (induction starts arbitrary: issued results)
  case Nil
  then show ?case by simp
next
  case (Cons s starts)
  show ?case
  proof (cases "http (params s)")
    case (Inl e)
    with Cons.prems show ?thesis by (simp split: if_splits)
  next
    case (Inr data)
    show ?thesis
    proof (cases "page_items data")
      case (Inl e)
      with Inr Cons.prems show ?thesis by simp
    next
      case items: (Inr items)
      from assms [of "params s"] Inr items have le: "length items \<le> m"
        by (simp add: items_of_def)
      from Cons.prems Inr items
      have "search_loop http params starts (issued @ [params s]) (results @ items) = (tr, Inr rs)"
        by simp
      from Cons.IH [OF this] le show ?thesis by simp
    qed
  qed
qed

lemma google_search_with_credentials:
  assumes "GOOGLE_API_KEY cfg = Some key" "key \<noteq> []" "CX cfg = Some cx" "cx \<noteq> []"
    and "0 < results_per_page"
  shows "google_search query cfg results_per_page http =
     search_loop http (\<lambda>start. SearchGet key cx query results_per_page start)
       (range_up 1 (get_default (TOTAL_RESULTS cfg) 50 + 1) results_per_page) [] []"
  using assms by (simp add: google_search_def py_not_def py_range_def get_default_def)

text \<open>
  Claim C4. With both credentials present, a positive page size and every page request
  succeeding, the requests issued are the search requests at the start offsets
  \<open>1 + k * pageSize\<close> for \<open>k = 0, 1, \<dots>, n - 1\<close>, in this order, where an offset of this form
  is at most the total-results cap exactly when \<open>k < n\<close>. With cap 25 and page size 10
  these are the three requests at 1, 11 and 21.
\<close>

theorem google_search_offsets:
  assumes key: "GOOGLE_API_KEY cfg = Some key" "key \<noteq> []"
    and cx: "CX cfg = Some cx" "cx \<noteq> []"
    and ps: "0 < results_per_page"
    and ok: "\<forall>r. page_ok http r"
  shows "\<exists>n. fst (google_search query cfg results_per_page http)
              = map (\<lambda>k. SearchGet key cx query results_per_page
                             (1 + int k * results_per_page)) [0..<n]
            \<and> (\<forall>k. (1 + int k * results_per_page \<le> get_default (TOTAL_RESULTS cfg) 50)
                     = (k < n))"
proof -
  let ?cap = "get_default (TOTAL_RESULTS cfg) 50"
  let ?params = "\<lambda>start. SearchGet key cx query results_per_page start"
  from range_up_offsets [OF ps, of 1 "?cap + 1"] obtain n where
    r: "range_up 1 (?cap + 1) results_per_page = map (\<lambda>k. 1 + int k * results_per_page) [0..<n]"
    and b: "\<And>k. (1 + int k * results_per_page < ?cap + 1) = (k < n)"
    by blast
  from ok have "\<forall>s\<in>set (range_up 1 (?cap + 1) results_per_page). page_ok http (?params s)"
    by simp
  from search_loop_all_ok [OF this, of "[]" "[]"]
  have "fst (google_search query cfg results_per_page http)
          = map ?params (range_up 1 (?cap + 1) results_per_page)"
    by (simp add: google_search_with_credentials [OF key cx ps])
  then have "fst (google_search query cfg results_per_page http)
          = map (\<lambda>k. ?params (1 + int k * results_per_page)) [0..<n]"
    by (simp add: r o_def)
  moreover have "(1 + int k * results_per_page \<le> ?cap) = (k < n)" for k
    using b [of k] by simp
  ultimately show ?thesis by blast
qed

theorem google_search_offsets_witness:
  "GOOGLE_API_KEY \<lparr>GEMINI_API_KEY = None, GOOGLE_API_KEY = Some ''k'', CX = Some ''c'',
        EXCLUDED_SITES = None, INTEXT_KEYWORDS = None, TOTAL_RESULTS = Some 25\<rparr> = Some ''k''
   \<and> ''k'' \<noteq> []
   \<and> CX \<lparr>GEMINI_API_KEY = None, GOOGLE_API_KEY = Some ''k'', CX = Some ''c'',
        EXCLUDED_SITES = None, INTEXT_KEYWORDS = None, TOTAL_RESULTS = Some 25\<rparr> = Some ''c''
   \<and> ''c'' \<noteq> []
   \<and> (0::int) < 10
   \<and> (\<forall>r. page_ok (\<lambda>r. Inr (JObj [(''items'', JArr [JObj [(''title'', JStr ''T'')]])])) r)
   \<and> fst (google_search ''q''
        \<lparr>GEMINI_API_KEY = None, GOOGLE_API_KEY = Some ''k'', CX = Some ''c'',
         EXCLUDED_SITES = None, INTEXT_KEYWORDS = None, TOTAL_RESULTS = Some 25\<rparr>
        10 (\<lambda>r. Inr (JObj [(''items'', JArr [JObj [(''title'', JStr ''T'')]])])))
      = [SearchGet ''k'' ''c'' ''q'' 10 1, SearchGet ''k'' ''c'' ''q'' 10 11,
         SearchGet ''k'' ''c'' ''q'' 10 21]"
proof -
  let ?cfg = "\<lparr>GEMINI_API_KEY = None, GOOGLE_API_KEY = Some ''k'', CX = Some ''c'',
        EXCLUDED_SITES = None, INTEXT_KEYWORDS = None, TOTAL_RESULTS = Some 25\<rparr>"
  let ?http = "\<lambda>r::request. (Inr (JObj [(''items'', JArr [JObj [(''title'', JStr ''T'')]])])
                   :: py_exc + json)"
  have k: "GOOGLE_API_KEY ?cfg = Some ''k''" and k': "''k'' \<noteq> []"
    and c: "CX ?cfg = Some ''c''" and c': "''c'' \<noteq> []"
    and ps: "(0::int) < 10"
    by simp_all
  have ok: "\<forall>r. page_ok ?http r"
    by (simp add: page_ok_def page_items_def bnd_def)
  from google_search_offsets [OF k k' c c' ps ok, of "''q''"] obtain n where
    tr: "fst (google_search ''q'' ?cfg 10 ?http)
           = map (\<lambda>k. SearchGet ''k'' ''c'' ''q'' 10 (1 + int k * 10)) [0..<n]"
    and b: "\<And>k. (1 + int k * 10 \<le> get_default (TOTAL_RESULTS ?cfg) 50) = (k < n)"
    by blast
  from b [of 2] b [of 3] have "n = 3" by (simp add: get_default_def)
  moreover have "[0..<3] = [0, 1, 2]" by (simp add: upt_rec)
  ultimately have "fst (google_search ''q'' ?cfg 10 ?http)
      = [SearchGet ''k'' ''c'' ''q'' 10 1, SearchGet ''k'' ''c'' ''q'' 10 11,
         SearchGet ''k'' ''c'' ''q'' 10 21]"
    using tr by simp
  with k k' c c' ps ok show ?thesis by blast
qed

text \<open>
  Claim C5. With both credentials present and a positive page size, when the requests
  at the first \<open>j\<close> offsets succeed and the request at the next offset (still within the
  cap) fails with a \<open>RequestException\<close>, the paginator issues exactly these \<open>j + 1\<close>
  requests and returns the items of the \<open>j\<close> successful pages, in order. With a failure
  on the second page the requests are those at 1 and 11 and no third one.
\<close>

theorem google_search_stops_at_failure:
  assumes key: "GOOGLE_API_KEY cfg = Some key" "key \<noteq> []"
    and cx: "CX cfg = Some cx" "cx \<noteq> []"
    and ps: "0 < results_per_page"
    and within: "1 + int j * results_per_page \<le> get_default (TOTAL_RESULTS cfg) 50"
    and before: "\<forall>i<j. page_ok http
                   (SearchGet key cx query results_per_page (1 + int i * results_per_page))"
    and fails: "http (SearchGet key cx query results_per_page (1 + int j * results_per_page))
                  = Inl RequestException"
  shows "google_search query cfg results_per_page http =
     (map (\<lambda>k. SearchGet key cx query results_per_page (1 + int k * results_per_page))
        [0..<Suc j],
      Inr (concat (map (\<lambda>k. items_of http
                     (SearchGet key cx query results_per_page (1 + int k * results_per_page)))
             [0..<j])))"
proof -
  let ?cap = "get_default (TOTAL_RESULTS cfg) 50"
  let ?params = "\<lambda>start. SearchGet key cx query results_per_page start"
  let ?off = "\<lambda>k. 1 + int k * results_per_page"
  from range_up_offsets [OF ps, of 1 "?cap + 1"] obtain n where
    r: "range_up 1 (?cap + 1) results_per_page = map ?off [0..<n]"
    and b: "\<And>k. (?off k < ?cap + 1) = (k < n)"
    by blast
  from within b [of j] have jn: "j < n" by simp
  let ?starts = "map ?off [0..<n]"
  have a1: "j < length ?starts" using jn by simp
  have a2: "\<forall>i<j. page_ok http (?params (?starts ! i))"
    using before jn by simp
  have a3: "http (?params (?starts ! j)) = Inl RequestException"
    using fails jn by simp
  have t1: "take (Suc j) ?starts = map ?off [0..<Suc j]"
    using jn by (simp add: take_map del: upt_Suc)
  have t2: "take j ?starts = map ?off [0..<j]"
    using jn by (simp add: take_map)
  from search_loop_failure [of j ?starts http ?params "[]" "[]", OF a1 a2 a3]
  show ?thesis
    unfolding google_search_with_credentials [OF key cx ps] r t1 t2
    by (simp add: o_def del: upt_Suc)
qed

theorem google_search_stops_at_failure_witness:
  "GOOGLE_API_KEY \<lparr>GEMINI_API_KEY = None, GOOGLE_API_KEY = Some ''k'', CX = Some ''c'',
        EXCLUDED_SITES = None, INTEXT_KEYWORDS = None, TOTAL_RESULTS = Some 25\<rparr> = Some ''k''
   \<and> ''k'' \<noteq> []
   \<and> CX \<lparr>GEMINI_API_KEY = None, GOOGLE_API_KEY = Some ''k'', CX = Some ''c'',
        EXCLUDED_SITES = None, INTEXT_KEYWORDS = None, TOTAL_RESULTS = Some 25\<rparr> = Some ''c''
   \<and> ''c'' \<noteq> []
   \<and> (0::int) < 10
   \<and> 1 + int 1 * 10 \<le> get_default (TOTAL_RESULTS
        \<lparr>GEMINI_API_KEY = None, GOOGLE_API_KEY = Some ''k'', CX = Some ''c'',
         EXCLUDED_SITES = None, INTEXT_KEYWORDS = None, TOTAL_RESULTS = Some 25\<rparr>) 50
   \<and> page_ok
        (\<lambda>r. if r = SearchGet ''k'' ''c'' ''q'' 10 11 then Inl RequestException
              else Inr (JObj [(''items'', JArr [JObj [(''title'', JStr ''T'')]])]))
        (SearchGet ''k'' ''c'' ''q'' 10 1)
   \<and> (\<lambda>r. if r = SearchGet ''k'' ''c'' ''q'' 10 11 then Inl RequestException
              else Inr (JObj [(''items'', JArr [JObj [(''title'', JStr ''T'')]])]))
        (SearchGet ''k'' ''c'' ''q'' 10 11) = Inl RequestException
   \<and> google_search ''q''
        \<lparr>GEMINI_API_KEY = None, GOOGLE_API_KEY = Some ''k'', CX = Some ''c'',
         EXCLUDED_SITES = None, INTEXT_KEYWORDS = None, TOTAL_RESULTS = Some 25\<rparr>
        10
        (\<lambda>r. if r = SearchGet ''k'' ''c'' ''q'' 10 11 then Inl RequestException
              else Inr (JObj [(''items'', JArr [JObj [(''title'', JStr ''T'')]])]))
      = ([SearchGet ''k'' ''c'' ''q'' 10 1, SearchGet ''k'' ''c'' ''q'' 10 11],
         Inr [JObj [(''title'', JStr ''T'')]])"
proof -
  let ?cfg = "\<lparr>GEMINI_API_KEY = None, GOOGLE_API_KEY = Some ''k'', CX = Some ''c'',
        EXCLUDED_SITES = None, INTEXT_KEYWORDS = None, TOTAL_RESULTS = Some 25\<rparr>"
  let ?http = "\<lambda>r. if r = SearchGet ''k'' ''c'' ''q'' 10 11 then Inl RequestException
              else Inr (JObj [(''items'', JArr [JObj [(''title'', JStr ''T'')]])])"
  have k: "GOOGLE_API_KEY ?cfg = Some ''k''" and k': "''k'' \<noteq> []"
    and c: "CX ?cfg = Some ''c''" and c': "''c'' \<noteq> []"
    and ps: "(0::int) < 10"
    by simp_all
  have within: "1 + int 1 * 10 \<le> get_default (TOTAL_RESULTS ?cfg) 50"
    by (simp add: get_default_def)
  have first: "page_ok ?http (SearchGet ''k'' ''c'' ''q'' 10 1)"
    by (simp add: page_ok_def page_items_def bnd_def)
  have before: "\<forall>i<1. page_ok ?http (SearchGet ''k'' ''c'' ''q'' 10 (1 + int i * 10))"
    using first by simp
  have fails: "?http (SearchGet ''k'' ''c'' ''q'' 10 (1 + int 1 * 10)) = Inl RequestException"
    by simp
  have "google_search ''q'' ?cfg 10 ?http
      = ([SearchGet ''k'' ''c'' ''q'' 10 1, SearchGet ''k'' ''c'' ''q'' 10 11],
         Inr [JObj [(''title'', JStr ''T'')]])"
    unfolding google_search_stops_at_failure [OF k k' c c' ps within before fails]
    by (simp add: items_of_def page_items_def bnd_def)
  moreover have "?http (SearchGet ''k'' ''c'' ''q'' 10 11) = Inl RequestException" by simp
  ultimately show ?thesis using k k' c c' ps within first by blast
qed

text \<open>
  Claim C1, as stated, fails: nothing truncates the accumulator. With cap 25 and page
  size 10 three pages are requested, and when each carries 10 items (no more than the
  page size asked for) the result has 30 items.
\<close>

theorem google_search_exceeds_cap:
  "map_sum id length
     (snd (google_search ''q''
        \<lparr>GEMINI_API_KEY = None, GOOGLE_API_KEY = Some ''k'', CX = Some ''c'',
         EXCLUDED_SITES = None, INTEXT_KEYWORDS = None, TOTAL_RESULTS = Some 25\<rparr>
        10
        (\<lambda>r. Inr (JObj [(''items'', JArr (replicate 10 (JObj [(''title'', JStr ''T'')])))]))))
     = Inr 30
   \<and> get_default (TOTAL_RESULTS
        \<lparr>GEMINI_API_KEY = None, GOOGLE_API_KEY = Some ''k'', CX = Some ''c'',
         EXCLUDED_SITES = None, INTEXT_KEYWORDS = None, TOTAL_RESULTS = Some 25\<rparr>) 50 = 25
   \<and> \<not> (30::nat) \<le> 25"
  by (simp add: google_search_def py_not_def get_default_def py_range_def range_up.simps
      page_items_def bnd_def)

text \<open>
  Claim C1, amended. For a positive page size, when no page response carries more
  items than the page size, the returned result set has fewer items than the cap (or 0
  for a negative cap) plus the page size, and no more items than the cap when the cap is
  a non-negative multiple of the page size.
\<close>

theorem google_search_result_bound:
  assumes ps: "0 < results_per_page"
    and pages: "\<forall>r. int (length (items_of http r)) \<le> results_per_page"
    and res: "snd (google_search query cfg results_per_page http) = Inr results"
  shows "int (length results) < max 0 (get_default (TOTAL_RESULTS cfg) 50) + results_per_page
         \<and> (0 \<le> get_default (TOTAL_RESULTS cfg) 50
              \<and> results_per_page dvd get_default (TOTAL_RESULTS cfg) 50
            \<longrightarrow> int (length results) \<le> get_default (TOTAL_RESULTS cfg) 50)"
proof (cases "py_not (GOOGLE_API_KEY cfg) \<or> py_not (CX cfg)")
  case True
  with res have "results = []" by (auto simp: google_search_def)
  with ps show ?thesis by simp
next
  case False
  let ?cap = "get_default (TOTAL_RESULTS cfg) 50"
  let ?ps = results_per_page
  from range_up_offsets [OF ps, of 1 "?cap + 1"] obtain n where
    r: "range_up 1 (?cap + 1) ?ps = map (\<lambda>k. 1 + int k * ?ps) [0..<n]"
    and b: "\<And>k. (1 + int k * ?ps < ?cap + 1) = (k < n)"
    by blast
  obtain params where
    g: "google_search query cfg ?ps http = search_loop http params (range_up 1 (?cap + 1) ?ps) [] []"
    using False ps by (auto simp: google_search_def py_range_def Let_def)
  obtain tr where "search_loop http params (range_up 1 (?cap + 1) ?ps) [] [] = (tr, Inr results)"
    using res g by (metis prod.collapse)
  moreover have "length (items_of http r) \<le> nat ?ps" for r
    using pages ps by (simp add: le_nat_iff)
  ultimately have "length results \<le> length ([]::json list) + nat ?ps * length (range_up 1 (?cap + 1) ?ps)"
    by (rule search_loop_length [rotated])
  then have "length results \<le> nat ?ps * n" by (simp add: r)
  then have "int (length results) \<le> int (nat ?ps * n)" by (rule iffD2 [OF of_nat_le_iff])
  with ps have len: "int (length results) \<le> ?ps * int n" by simp
  show ?thesis
  proof (cases n)
    case 0
    with len ps show ?thesis by simp
  next
    case (Suc m)
    with b [of m] have m: "1 + int m * ?ps \<le> ?cap" by simp
    have n: "?ps * int n = int m * ?ps + ?ps" using Suc by (simp add: algebra_simps)
    have first: "int (length results) < max 0 ?cap + ?ps"
      using len n m by linarith
    have second: "int (length results) \<le> ?cap" if d: "?ps dvd ?cap"
    proof -
      from d obtain q where q: "?cap = ?ps * q" ..
      from m q have "int m * ?ps < ?ps * q" by simp
      then have "?ps * int m < ?ps * q" by (simp add: mult.commute)
      with ps have "int m < q" by (simp add: mult_less_cancel_left_pos)
      then have "int m + 1 \<le> q" by simp
      with ps have "?ps * (int m + 1) \<le> ?ps * q" by (simp add: mult_le_cancel_left_pos)
      with len n q show ?thesis by (simp add: algebra_simps)
    qed
    from first second show ?thesis by blast
  qed
qed

theorem google_search_result_bound_witness:
  "(0::int) < 10
   \<and> (\<forall>r. int (length (items_of
          (\<lambda>r. Inr (JObj [(''items'', JArr (replicate 10 (JObj [(''title'', JStr ''T'')])))])) r))
        \<le> 10)
   \<and> snd (google_search ''q''
        \<lparr>GEMINI_API_KEY = None, GOOGLE_API_KEY = Some ''k'', CX = Some ''c'',
         EXCLUDED_SITES = None, INTEXT_KEYWORDS = None, TOTAL_RESULTS = Some 20\<rparr>
        10
        (\<lambda>r. Inr (JObj [(''items'', JArr (replicate 10 (JObj [(''title'', JStr ''T'')])))])))
      = Inr (replicate 20 (JObj [(''title'', JStr ''T'')]))
   \<and> int (length (replicate 20 (JObj [(''title'', JStr ''T'')]))) < max 0 20 + 10
   \<and> int (length (replicate 20 (JObj [(''title'', JStr ''T'')]))) \<le> 20"
proof -
  let ?cfg = "\<lparr>GEMINI_API_KEY = None, GOOGLE_API_KEY = Some ''k'', CX = Some ''c'',
         EXCLUDED_SITES = None, INTEXT_KEYWORDS = None, TOTAL_RESULTS = Some 20\<rparr>"
  let ?http = "\<lambda>r::request. (Inr (JObj [(''items'', JArr (replicate 10 (JObj [(''title'', JStr ''T'')])))])
                   :: py_exc + json)"
  let ?rs = "replicate 20 (JObj [(''title'', JStr ''T'')])"
  have ps: "(0::int) < 10" by simp
  have pages: "\<forall>r. int (length (items_of ?http r)) \<le> 10"
    by (simp add: items_of_def page_items_def bnd_def)
  have res: "snd (google_search ''q'' ?cfg 10 ?http) = Inr ?rs"
    by (simp add: google_search_def py_not_def get_default_def py_range_def range_up.simps
        page_items_def bnd_def replicate_add [symmetric])
  have cap: "get_default (TOTAL_RESULTS ?cfg) 50 = 20" by (simp add: get_default_def)
  note bound = google_search_result_bound [OF ps pages res, unfolded cap]
  have b1: "int (length ?rs) < max 0 20 + 10"
    by (rule conjunct1 [OF bound])
  have b2: "int (length ?rs) \<le> 20"
    by (rule mp [OF conjunct2 [OF bound]]) simp
  from ps pages res b1 b2 show ?thesis by blast
qed

section \<open>The tabular writer\<close>

lemma csv_rows_dicts:
  "csv_rows (map JObj dicts) =
     (map (\<lambda>kvs. [spec_cell kvs ''title'', spec_cell kvs ''link'']) dicts, None)"
proof (induction dicts)
  case Nil
  show ?case by simp
next
  case (Cons kvs dicts)
  have cell: "(case map_of kvs k of None \<Rightarrow> JStr ''N/A'' | Some v \<Rightarrow> v) = spec_cell kvs k" for k
    by (auto simp: spec_cell_def map_of_eq_None_iff image_iff split: option.splits)
       (metis fst_conv map_of_SomeD)
  from Cons.IH show ?case by (simp add: cell)
qed

text \<open>
  Claim C8. For a result list of items that are dicts, \<^verbatim>\<open>save_results_to_csv\<close>
  writes the header row Title, Link and then one row per item, in order, holding the
  item's \<^verbatim>\<open>title\<close> and \<^verbatim>\<open>link\<close>, with the literal \<^verbatim>\<open>N/A\<close> in place of a field the item
  does not have; no exception is raised. An item with a title and no link gets
  \<^verbatim>\<open>N/A\<close> in the link column.
\<close>

theorem save_results_to_csv_rows:
  "save_results_to_csv (map JObj dicts) =
     ([JStr ''Title'', JStr ''Link'']
        # map (\<lambda>kvs. [spec_cell kvs ''title'', spec_cell kvs ''link'']) dicts, None)
   \<and> save_results_to_csv [JObj [(''title'', JStr ''Report'')]] =
     ([[JStr ''Title'', JStr ''Link''], [JStr ''Report'', JStr ''N/A'']], None)"
proof (rule conjI)
  show "save_results_to_csv (map JObj dicts) =
     ([JStr ''Title'', JStr ''Link'']
        # map (\<lambda>kvs. [spec_cell kvs ''title'', spec_cell kvs ''link'']) dicts, None)"
    by (simp add: save_results_to_csv_def csv_rows_dicts)
  show "save_results_to_csv [JObj [(''title'', JStr ''Report'')]] =
     ([[JStr ''Title'', JStr ''Link''], [JStr ''Report'', JStr ''N/A'']], None)"
    by (simp add: save_results_to_csv_def)
qed

section \<open>The command line\<close>

lemma py_strip_whitespace:
  assumes "\<forall>c\<in>set s. isspace c"
  shows "py_strip s = []"
proof -
  from assms have d: "dropWhile isspace s = []" by (induction s) simp_all
  show ?thesis unfolding py_strip_def d by simp
qed

text \<open>
  Claim C9. When the search keyword given on the command line is empty or consists of
  whitespace only, \<^verbatim>\<open>main\<close> exits with status 1 and the run has no event at all: the
  configuration file is not read and no request is issued.
\<close>

theorem main_empty_keyword:
  assumes "\<forall>c\<in>set search_keyword_arg. isspace c"
  shows "main search_keyword_arg config_arg w = ([], Exit 1)"
  using assms by (simp add: main_def py_strip_whitespace)

theorem main_empty_keyword_witness:
  "list_all isspace '' ''
   \<and> main '' '' ''config.json''
        \<lparr>config_file = (\<lambda>p. None), net = (\<lambda>r. Inl RequestException)\<rparr> = ([], Exit 1)"
proof -
  have l: "list_all isspace '' ''" by (simp add: isspace_def)
  then have h: "\<forall>c\<in>set '' ''. isspace c" by simp
  show ?thesis
    by (rule conjI, rule l, rule main_empty_keyword, rule h)
qed

end
